theory Spec2Isabelle
  imports Main
begin

section \<open>The AutoDeploy console: data model of \<open>src/App.tsx\<close>\<close>

text \<open>
  The component \<open>App\<close> keeps three pieces of React state (\<open>logs\<close>, \<open>input\<close>,
  \<open>status\<close>) and, for every deployment simulation suspended at an \<open>await\<close>, one
  pending timer of the event loop. A state setter only queues its update: the
  handlers of the page are closures of the last render and go on reading the
  \<open>input\<close> and \<open>status\<close> of that render until React renders again. The embedding
  keeps both: the state with every issued update applied, and the values the last
  render captured. Handlers return their updates as a list, in program order, and
  \<open>commit\<close> applies them to the state.

  Texts are HOL strings: a character stands for one code unit below 256. Random
  numbers and the wall clock are inputs: every call of \<open>addLog\<close> receives the two
  strings that \<open>Math.random().toString(36)\<close> and \<open>toLocaleTimeString\<close> produced.
\<close>

datatype LogLevel = info | success | error | warning

record LogEntry =
  id' :: string
  timestamp :: string
  message :: string
  level :: LogLevel

text \<open>The fifth state of the source is called \<open>'error'\<close>; the name is taken by the log level.\<close>

datatype AgentState = idle | analyzing | building | deploying | error_state

record AgentStatus =
  state :: AgentState
  currentTask :: string
  progress :: int

text \<open>
  The points of \<open>runDeploymentSimulation\<close> at which it is entered or resumed:
  its start, and the code after each of its three \<open>await\<close>s.
\<close>

datatype stage = Start | AfterAnalyze | AfterBuild | AfterDeploy

text \<open>
  State updates in the order the code issues them. \<open>AppendLog e\<close> is
  \<open>setLogs(prev => [...prev, e])\<close>, \<open>ResetLogs\<close> is \<open>setLogs([])\<close>, and
  \<open>Await ms k\<close> is \<open>await new Promise(r => setTimeout(r, ms))\<close> followed by the
  code at \<open>k\<close>.
\<close>

datatype update =
    AppendLog LogEntry
  | ResetLogs
  | SetInput string
  | SetStatus AgentStatus
  | Await nat stage

record stamp =
  random36 :: string
  timeString :: string

text \<open>
  \<open>logs\<close>, \<open>input\<close> and \<open>status\<close> are the React state; \<open>rendered_input\<close> and
  \<open>rendered_status\<close> are the constants \<open>input\<close> and \<open>status\<close> of the last render,
  which \<open>handleKeyDown\<close>, \<open>processCommand\<close> and the button's \<open>disabled\<close> read.
\<close>

record app =
  logs :: "LogEntry list"
  input :: string
  status :: AgentStatus
  timers :: "(nat \<times> stage) list"
  rendered_input :: string
  rendered_status :: AgentStatus

definition App_init :: app where
  "App_init =
     \<lparr>logs = [], input = '''',
      status = \<lparr>state = idle, currentTask = ''Waiting for command...'', progress = 0\<rparr>,
      timers = [],
      rendered_input = '''',
      rendered_status =
        \<lparr>state = idle, currentTask = ''Waiting for command...'', progress = 0\<rparr>\<rparr>"

section \<open>String operations of the host language\<close>

text \<open>\<open>s.substr(start, len)\<close> for non-negative arguments.\<close>

definition substr :: "nat \<Rightarrow> nat \<Rightarrow> string \<Rightarrow> string" where
  "substr start len s = take len (drop start s)"

text \<open>White space and line terminators below code unit 256, as \<open>trim\<close> strips them.\<close>

definition isWhiteSpace :: "char \<Rightarrow> bool" where
  "isWhiteSpace c =
     (let n = (of_char c :: nat)
      in n = 9 \<or> n = 10 \<or> n = 11 \<or> n = 12 \<or> n = 13 \<or> n = 32 \<or> n = 160)"

definition trim :: "string \<Rightarrow> string" where
  "trim s = rev (dropWhile isWhiteSpace (rev (dropWhile isWhiteSpace s)))"

text \<open>Lower-casing of one code unit: the letters A to Z, and the capitals of Latin-1.\<close>

definition toLowerChar :: "char \<Rightarrow> char" where
  "toLowerChar c =
     (let n = (of_char c :: nat)
      in if (65 \<le> n \<and> n \<le> 90) \<or> (192 \<le> n \<and> n \<le> 222 \<and> n \<noteq> 215)
         then char_of (n + 32) else c)"

definition toLowerCase :: "string \<Rightarrow> string" where
  "toLowerCase s = map toLowerChar s"

fun startsWith :: "string \<Rightarrow> string \<Rightarrow> bool" where
  "startsWith s [] = True"
| "startsWith [] (p # ps) = False"
| "startsWith (c # cs) (p # ps) = (c = p \<and> startsWith cs ps)"

text \<open>\<open>s.includes(sub)\<close>: \<open>sub\<close> occurs in \<open>s\<close> at some position.\<close>

fun includes_str :: "string \<Rightarrow> string \<Rightarrow> bool" where
  "includes_str [] sub = startsWith [] sub"
| "includes_str (c # cs) sub = (startsWith (c # cs) sub \<or> includes_str cs sub)"

section \<open>The handlers\<close>

text \<open>
  The object literal of \<open>addLog\<close>: the id is \<open>Math.random().toString(36).substr(2, 9)\<close>,
  the timestamp the formatted time of the call.
\<close>

definition newEntry :: "stamp \<Rightarrow> string \<Rightarrow> LogLevel \<Rightarrow> LogEntry" where
  "newEntry env msg lvl =
     \<lparr>id' = substr 2 9 (random36 env), timestamp = timeString env,
      message = msg, level = lvl\<rparr>"

definition addLog :: "stamp \<Rightarrow> string \<Rightarrow> LogLevel \<Rightarrow> update" where
  "addLog env msg lvl = AppendLog (newEntry env msg lvl)"

text \<open>
  One segment of \<open>runDeploymentSimulation\<close>, from the given point to the next
  \<open>await\<close> or to the end. \<open>rnd n\<close> is the stamp of the segment's \<open>n\<close>th call of \<open>addLog\<close>.
\<close>

fun runDeploymentSimulation :: "stage \<Rightarrow> (nat \<Rightarrow> stamp) \<Rightarrow> update list" where
  "runDeploymentSimulation Start rnd =
     [SetStatus \<lparr>state = analyzing, currentTask = ''Analyzing repository structure...'',
                 progress = 10\<rparr>,
      addLog (rnd 0) ''Initiating deployment sequence...'' info,
      Await 1500 AfterAnalyze]"
| "runDeploymentSimulation AfterAnalyze rnd =
     [addLog (rnd 0) ''Repository analysis complete. Detected React/Vite project.'' success,
      SetStatus \<lparr>state = building, currentTask = ''Running build scripts...'',
                 progress = 40\<rparr>,
      addLog (rnd 1) ''Executing: npm run build'' info,
      Await 2000 AfterBuild]"
| "runDeploymentSimulation AfterBuild rnd =
     [addLog (rnd 0) ''Build successful. Output directory: /dist'' success,
      SetStatus \<lparr>state = deploying, currentTask = ''Uploading assets to edge...'',
                 progress = 75\<rparr>,
      addLog (rnd 1) ''Optimizing assets for edge distribution...'' info,
      Await 1500 AfterDeploy]"
| "runDeploymentSimulation AfterDeploy rnd =
     [addLog (rnd 0) ''Verifying integrity...'' info,
      SetStatus \<lparr>state = idle, currentTask = ''Deployment Complete'', progress = 100\<rparr>,
      addLog (rnd 1)
        ''Deployment successful! URL: https://autodeploy-agent.vercel.app'' success]"

text \<open>
  \<open>processCommand\<close> reads the status \<open>cur\<close> of the render it was created in.
\<close>

definition processCommand :: "(nat \<Rightarrow> stamp) \<Rightarrow> AgentStatus \<Rightarrow> string \<Rightarrow> update list" where
  "processCommand rnd cur cmd =
     [addLog (rnd 0) (''> '' @ cmd) info, SetInput ''''] @
     (if state cur \<noteq> idle then
        [addLog (rnd 1) ''Agent is busy. Please wait.'' warning]
      else if toLowerCase (trim cmd) = ''help'' then
        [addLog (rnd 1) ''Available commands: deploy, status, clear, analyze'' info]
      else if toLowerCase (trim cmd) = ''clear'' then
        [ResetLogs]
      else if includes_str (toLowerCase (trim cmd)) ''deploy'' then
        runDeploymentSimulation Start (\<lambda>n. rnd (Suc n))
      else
        [addLog (rnd 1) (''Command not recognized: '' @ cmd) error])"

text \<open>The key handler of the text field: \<open>e.key === 'Enter' && input\<close>.\<close>

definition handleKeyDown ::
  "(nat \<Rightarrow> stamp) \<Rightarrow> AgentStatus \<Rightarrow> string \<Rightarrow> string \<Rightarrow> update list" where
  "handleKeyDown rnd cur inp key =
     (if key = ''Enter'' \<and> inp \<noteq> [] then processCommand rnd cur inp else [])"

section \<open>Committing updates, and the events of the page\<close>

fun apply_update :: "update \<Rightarrow> app \<Rightarrow> app" where
  "apply_update (AppendLog e) a = a\<lparr>logs := logs a @ [e]\<rparr>"
| "apply_update ResetLogs a = a\<lparr>logs := []\<rparr>"
| "apply_update (SetInput s) a = a\<lparr>input := s\<rparr>"
| "apply_update (SetStatus st) a = a\<lparr>status := st\<rparr>"
| "apply_update (Await ms k) a = a\<lparr>timers := timers a @ [(ms, k)]\<rparr>"

definition commit :: "update list \<Rightarrow> app \<Rightarrow> app" where
  "commit us a = fold apply_update us a"

text \<open>
  The events: typing into the field (\<open>onChange\<close>), a key pressed in it, the
  ``Deploy Now'' button (inert while \<open>disabled\<close>), \<open>processCommand\<close> called with
  any text, the \<open>i\<close>th pending timer firing, which resumes its simulation, and a
  render, after which the handlers see the current state. Between two renders any
  number of handlers may run, all with the values of the earlier render.
\<close>

datatype event =
    Change string
  | KeyDown string "nat \<Rightarrow> stamp"
  | ClickDeploy "nat \<Rightarrow> stamp"
  | Submit string "nat \<Rightarrow> stamp"
  | TimerFires nat "nat \<Rightarrow> stamp"
  | Render

fun step :: "event \<Rightarrow> app \<Rightarrow> app" where
  "step (Change s) a = commit [SetInput s] a"
| "step (KeyDown key rnd) a =
     commit (handleKeyDown rnd (rendered_status a) (rendered_input a) key) a"
| "step (ClickDeploy rnd) a =
     (if state (rendered_status a) \<noteq> idle then a
      else commit (processCommand rnd (rendered_status a) ''deploy'') a)"
| "step (Submit cmd rnd) a = commit (processCommand rnd (rendered_status a) cmd) a"
| "step (TimerFires i rnd) a =
     (if i < length (timers a)
      then commit (runDeploymentSimulation (snd (timers a ! i)) rnd)
             (a\<lparr>timers := take i (timers a) @ drop (Suc i) (timers a)\<rparr>)
      else a)"
| "step Render a = a\<lparr>rendered_input := input a, rendered_status := status a\<rparr>"

definition exec :: "event list \<Rightarrow> app" where
  "exec es = fold step es App_init"

text \<open>The executions in which React renders after every event.\<close>

definition rendered_exec :: "event list \<Rightarrow> app" where
  "rendered_exec es = fold (\<lambda>e a. step Render (step e a)) es App_init"

section \<open>A sample environment and the state of a single run\<close>

text \<open>A fixed environment for concrete runs: every call of \<open>addLog\<close> gets the same stamp.\<close>

definition sample_rnd :: "nat \<Rightarrow> stamp" where
  "sample_rnd n = \<lparr>random36 = ''0.4fzyo82mvyr'', timeString = ''12:00:00''\<rparr>"

text \<open>
  Either no simulation is suspended and the agent is idle, or exactly one is, waiting
  on the timer of its current phase, and the status is that phase's. This holds
  throughout the executions that render after every event.
\<close>

definition in_flight_inv :: "app \<Rightarrow> bool" where
  "in_flight_inv a =
     ((timers a = [] \<and> state (status a) = idle)
    \<or> (timers a = [(1500, AfterAnalyze)] \<and>
        status a = \<lparr>state = analyzing, currentTask = ''Analyzing repository structure...'',
                     progress = 10\<rparr>)
    \<or> (timers a = [(2000, AfterBuild)] \<and>
        status a = \<lparr>state = building, currentTask = ''Running build scripts...'',
                     progress = 40\<rparr>)
    \<or> (timers a = [(1500, AfterDeploy)] \<and>
        status a = \<lparr>state = deploying, currentTask = ''Uploading assets to edge...'',
                     progress = 75\<rparr>))"

section \<open>The string operations meet their descriptions\<close>

text \<open>
  \<open>includes_str\<close> is the substring test, and a trimmed text neither starts nor ends
  with white space.
\<close>

lemma startsWith_iff: "startsWith s p \<longleftrightarrow> (\<exists>post. s = p @ post)"
  by (induction s p rule: startsWith.induct) auto

lemma includes_str_iff: "includes_str s sub \<longleftrightarrow> (\<exists>pre post. s = pre @ sub @ post)"
proof (induction s)
  case Nil
  show ?case by (auto simp: startsWith_iff)
next
  case (Cons c cs)
  show ?case
  proof
    assume "includes_str (c # cs) sub"
    then consider "startsWith (c # cs) sub" | "includes_str cs sub" by auto
    then show "\<exists>pre post. c # cs = pre @ sub @ post"
    proof cases
      case 1
      then obtain post where "c # cs = sub @ post" by (auto simp: startsWith_iff)
      then have "c # cs = [] @ sub @ post" by simp
      then show ?thesis by blast
    next
      case 2
      with Cons obtain pre post where "cs = pre @ sub @ post" by auto
      then have "c # cs = (c # pre) @ sub @ post" by simp
      then show ?thesis by blast
    qed
  next
    assume "\<exists>pre post. c # cs = pre @ sub @ post"
    then obtain pre post where e: "c # cs = pre @ sub @ post" by auto
    show "includes_str (c # cs) sub"
    proof (cases pre)
      case Nil
      with e have "startsWith (c # cs) sub" by (auto simp: startsWith_iff)
      then show ?thesis by simp
    next
      case (Cons d ds)
      with e have "cs = ds @ sub @ post" by simp
      with Cons.IH have "includes_str cs sub" by blast
      then show ?thesis by simp
    qed
  qed
qed

lemma trim_no_outer_space:
  "trim s = [] \<or> (\<not> isWhiteSpace (hd (trim s)) \<and> \<not> isWhiteSpace (last (trim s)))"
proof (cases "trim s = []")
  case True
  then show ?thesis by simp
next
  case False
  define t where "t = dropWhile isWhiteSpace s"
  define u where "u = dropWhile isWhiteSpace (rev t)"
  have tr: "trim s = rev u" by (simp add: trim_def t_def u_def)
  with False have une: "u \<noteq> []" by simp
  then have hu: "\<not> isWhiteSpace (hd u)"
    unfolding u_def by (rule hd_dropWhile)
  have l: "last (trim s) = hd u" using une by (simp add: tr last_rev)
  obtain k where k: "rev t = k @ u" and kw: "\<forall>x\<in>set k. isWhiteSpace x"
    unfolding u_def
    by (metis takeWhile_dropWhile_id set_takeWhileD)
  then have tt: "t = rev u @ rev k" by (metis rev_append rev_rev_ident)
  have tne: "t \<noteq> []" using tt une by simp
  then have "\<not> isWhiteSpace (hd t)" unfolding t_def by (rule hd_dropWhile)
  moreover have "hd t = hd (rev u)" using tt une by simp
  ultimately show ?thesis using l hu tr by simp
qed

section \<open>Committing and dispatching: basic facts\<close>

lemma commit_Nil: "commit [] a = a"
  by (simp add: commit_def)

lemma commit_Cons: "commit (u # us) a = commit us (apply_update u a)"
  by (simp add: commit_def)

lemma commit_append: "commit (us @ vs) a = commit vs (commit us a)"
  by (simp add: commit_def)

lemmas commit_simps = commit_Nil commit_Cons commit_append

lemma apply_update_rendered:
  "rendered_status (apply_update u a) = rendered_status a
   \<and> rendered_input (apply_update u a) = rendered_input a"
  by (cases u) simp_all

lemma commit_rendered:
  "rendered_status (commit us a) = rendered_status a
   \<and> rendered_input (commit us a) = rendered_input a"
  by (induction us arbitrary: a) (simp_all add: commit_simps apply_update_rendered)

lemma help_without_deploy: "\<not> includes_str ''help'' ''deploy''"
  by simp

lemma clear_without_deploy: "\<not> includes_str ''clear'' ''deploy''"
  by simp

lemma deploy_not_help_clear:
  assumes "includes_str s ''deploy''"
  shows "s \<noteq> ''help'' \<and> s \<noteq> ''clear''"
  using assms help_without_deploy clear_without_deploy by auto

lemma processCommand_busy:
  "state cur \<noteq> idle \<Longrightarrow>
   processCommand rnd cur cmd =
     [addLog (rnd 0) (''> '' @ cmd) info, SetInput '''',
      addLog (rnd 1) ''Agent is busy. Please wait.'' warning]"
  by (simp add: processCommand_def)

lemma processCommand_help:
  "state cur = idle \<Longrightarrow> toLowerCase (trim cmd) = ''help'' \<Longrightarrow>
   processCommand rnd cur cmd =
     [addLog (rnd 0) (''> '' @ cmd) info, SetInput '''',
      addLog (rnd 1) ''Available commands: deploy, status, clear, analyze'' info]"
  by (simp add: processCommand_def)

lemma processCommand_deploy:
  "state cur = idle \<Longrightarrow> includes_str (toLowerCase (trim cmd)) ''deploy'' \<Longrightarrow>
   processCommand rnd cur cmd =
     [addLog (rnd 0) (''> '' @ cmd) info, SetInput ''''] @
     runDeploymentSimulation Start (\<lambda>n. rnd (Suc n))"
  using deploy_not_help_clear [of "toLowerCase (trim cmd)"]
  by (simp add: processCommand_def)

lemma processCommand_clear:
  "state cur = idle \<Longrightarrow> toLowerCase (trim cmd) = ''clear'' \<Longrightarrow>
   processCommand rnd cur cmd = [addLog (rnd 0) (''> '' @ cmd) info, SetInput '''', ResetLogs]"
  by (simp add: processCommand_def)

lemma processCommand_unrecognized:
  "state cur = idle \<Longrightarrow> toLowerCase (trim cmd) \<noteq> ''help'' \<Longrightarrow>
   toLowerCase (trim cmd) \<noteq> ''clear'' \<Longrightarrow>
   \<not> includes_str (toLowerCase (trim cmd)) ''deploy'' \<Longrightarrow>
   processCommand rnd cur cmd =
     [addLog (rnd 0) (''> '' @ cmd) info, SetInput '''',
      addLog (rnd 1) (''Command not recognized: '' @ cmd) error]"
  by (simp add: processCommand_def)

lemma lower_trim_status: "toLowerCase (trim ''status'') = ''status''"
  by code_simp

lemma lower_trim_analyze: "toLowerCase (trim ''analyze'') = ''analyze''"
  by code_simp

lemma processCommand_status_timers:
  "state cur = idle \<Longrightarrow> \<not> includes_str (toLowerCase (trim cmd)) ''deploy'' \<Longrightarrow>
   status (commit (processCommand rnd cur cmd) a) = status a \<and>
   timers (commit (processCommand rnd cur cmd) a) = timers a"
  by (simp add: processCommand_def commit_simps addLog_def)

lemma processCommand_busy_status_timers:
  "state cur \<noteq> idle \<Longrightarrow>
   status (commit (processCommand rnd cur cmd) a) = status a \<and>
   timers (commit (processCommand rnd cur cmd) a) = timers a"
  by (simp add: processCommand_busy commit_simps addLog_def)

lemma processCommand_deploy_status_timers:
  "state cur = idle \<Longrightarrow> includes_str (toLowerCase (trim cmd)) ''deploy'' \<Longrightarrow>
   status (commit (processCommand rnd cur cmd) a) =
     \<lparr>state = analyzing, currentTask = ''Analyzing repository structure...'', progress = 10\<rparr> \<and>
   timers (commit (processCommand rnd cur cmd) a) = timers a @ [(1500, AfterAnalyze)]"
  by (simp add: processCommand_deploy commit_simps addLog_def)

lemma timer_step:
  "i < length (timers a) \<Longrightarrow> snd (timers a ! i) = k \<Longrightarrow>
   step (TimerFires i rnd) a =
     commit (runDeploymentSimulation k rnd)
       (a\<lparr>timers := take i (timers a) @ drop (Suc i) (timers a)\<rparr>)"
  by simp

lemma processCommand_head:
  "processCommand rnd cur cmd =
     addLog (rnd 0) (''> '' @ cmd) info # tl (processCommand rnd cur cmd)"
  by (simp add: processCommand_def)

lemma later_not_echo:
  "AppendLog e \<in> set (runDeploymentSimulation k r) \<Longrightarrow> message e \<noteq> ''> '' @ cmd"
  by (cases k) (auto simp: addLog_def newEntry_def)

lemma rest_not_echo:
  "AppendLog e \<in> set (tl (processCommand rnd cur cmd)) \<Longrightarrow> message e \<noteq> ''> '' @ cmd"
  by (auto simp: processCommand_def addLog_def newEntry_def split: if_splits)

lemma submit_echo_first:
  "step (Submit cmd rnd) a =
     commit (tl (processCommand rnd (rendered_status a) cmd))
       (a\<lparr>logs := logs a @ [newEntry (rnd 0) (''> '' @ cmd) info]\<rparr>)"
proof -
  have "step (Submit cmd rnd) a =
      commit (addLog (rnd 0) (''> '' @ cmd) info # tl (processCommand rnd (rendered_status a) cmd)) a"
    using processCommand_head [of rnd "rendered_status a" cmd] by simp
  then show ?thesis
    by (simp add: commit_Cons addLog_def)
qed

lemma submit_logs_not_clear:
  assumes "\<not> (state (rendered_status a) = idle \<and> toLowerCase (trim cmd) = ''clear'')"
  shows "\<exists>more. logs (step (Submit cmd rnd) a) =
           logs a @ newEntry (rnd 0) (''> '' @ cmd) info # more
         \<and> (\<forall>e\<in>set more. message e \<noteq> ''> '' @ cmd)"
proof (cases "state (rendered_status a) = idle")
  case False
  then have "logs (step (Submit cmd rnd) a) =
      logs a @ newEntry (rnd 0) (''> '' @ cmd) info
        # [newEntry (rnd 1) ''Agent is busy. Please wait.'' warning]"
    by (simp add: processCommand_busy commit_simps addLog_def)
  moreover have "\<forall>e\<in>set [newEntry (rnd 1) ''Agent is busy. Please wait.'' warning].
      message e \<noteq> ''> '' @ cmd"
    by (simp add: newEntry_def)
  ultimately show ?thesis by blast
next
  case True
  with assms have nc: "toLowerCase (trim cmd) \<noteq> ''clear''" by simp
  show ?thesis
  proof (cases "toLowerCase (trim cmd) = ''help''")
    case h: True
    have "logs (step (Submit cmd rnd) a) =
        logs a @ newEntry (rnd 0) (''> '' @ cmd) info
          # [newEntry (rnd 1) ''Available commands: deploy, status, clear, analyze'' info]"
      using True h by (simp add: processCommand_help commit_simps addLog_def)
    moreover have "\<forall>e\<in>set [newEntry (rnd 1)
          ''Available commands: deploy, status, clear, analyze'' info].
        message e \<noteq> ''> '' @ cmd"
      by (simp add: newEntry_def)
    ultimately show ?thesis by blast
  next
    case h: False
    show ?thesis
    proof (cases "includes_str (toLowerCase (trim cmd)) ''deploy''")
      case d: True
      have "logs (step (Submit cmd rnd) a) =
          logs a @ newEntry (rnd 0) (''> '' @ cmd) info
            # [newEntry (rnd 1) ''Initiating deployment sequence...'' info]"
        using True d by (simp add: processCommand_deploy commit_simps addLog_def)
      moreover have "\<forall>e\<in>set [newEntry (rnd 1) ''Initiating deployment sequence...'' info].
          message e \<noteq> ''> '' @ cmd"
        by (simp add: newEntry_def)
      ultimately show ?thesis by blast
    next
      case d: False
      have "logs (step (Submit cmd rnd) a) =
          logs a @ newEntry (rnd 0) (''> '' @ cmd) info
            # [newEntry (rnd 1) (''Command not recognized: '' @ cmd) error]"
        using True h nc d by (simp add: processCommand_unrecognized commit_simps addLog_def)
      moreover have "\<forall>e\<in>set [newEntry (rnd 1) (''Command not recognized: '' @ cmd) error].
          message e \<noteq> ''> '' @ cmd"
        by (simp add: newEntry_def)
      ultimately show ?thesis by blast
    qed
  qed
qed

section \<open>Executions that render after every event\<close>

text \<open>
  When every event is followed by a render, each handler reads the current status,
  and the state of a single run is kept.
\<close>

lemma step_cases:
  assumes "in_flight_inv a" and "rendered_status a = status a"
  shows "(status (step e a) = status a \<and> timers (step e a) = timers a)
    \<or> (timers a = [] \<and> timers (step e a) = [(1500, AfterAnalyze)] \<and>
        status (step e a) =
          \<lparr>state = analyzing, currentTask = ''Analyzing repository structure...'',
           progress = 10\<rparr>)
    \<or> (timers a = [(1500, AfterAnalyze)] \<and> timers (step e a) = [(2000, AfterBuild)] \<and>
        status a = \<lparr>state = analyzing, currentTask = ''Analyzing repository structure...'',
                     progress = 10\<rparr> \<and>
        status (step e a) =
          \<lparr>state = building, currentTask = ''Running build scripts...'', progress = 40\<rparr>)
    \<or> (timers a = [(2000, AfterBuild)] \<and> timers (step e a) = [(1500, AfterDeploy)] \<and>
        status a = \<lparr>state = building, currentTask = ''Running build scripts...'',
                     progress = 40\<rparr> \<and>
        status (step e a) =
          \<lparr>state = deploying, currentTask = ''Uploading assets to edge...'', progress = 75\<rparr>)
    \<or> (timers a = [(1500, AfterDeploy)] \<and> timers (step e a) = [] \<and>
        status a = \<lparr>state = deploying, currentTask = ''Uploading assets to edge...'',
                     progress = 75\<rparr> \<and>
        status (step e a) =
          \<lparr>state = idle, currentTask = ''Deployment Complete'', progress = 100\<rparr>)"
proof -
  have pc: "(status (commit (processCommand rnd (status a) cmd) a) = status a \<and>
             timers (commit (processCommand rnd (status a) cmd) a) = timers a)
    \<or> (timers a = [] \<and> timers (commit (processCommand rnd (status a) cmd) a) = [(1500, AfterAnalyze)] \<and>
        status (commit (processCommand rnd (status a) cmd) a) =
          \<lparr>state = analyzing, currentTask = ''Analyzing repository structure...'',
           progress = 10\<rparr>)" for rnd cmd
  proof (cases "state (status a) = idle")
    case True
    with assms(1) have t: "timers a = []"
      by (auto simp: in_flight_inv_def)
    show ?thesis
    proof (cases "includes_str (toLowerCase (trim cmd)) ''deploy''")
      case d: True
      show ?thesis
        using processCommand_deploy_status_timers [OF True d, of rnd a] t by simp
    next
      case d: False
      show ?thesis
        using processCommand_status_timers [OF True d, of rnd a] by simp
    qed
  next
    case False
    show ?thesis
      using processCommand_busy_status_timers [OF False, of rnd cmd a] by simp
  qed
  have w: "\<And>A B C D E. A \<or> B \<Longrightarrow> A \<or> B \<or> C \<or> D \<or> E"
    by blast
  show ?thesis
  proof (cases e)
    case (Change s)
    then show ?thesis by (simp add: commit_simps)
  next
    case (KeyDown key rnd)
    show ?thesis
    proof (cases "key = ''Enter'' \<and> rendered_input a \<noteq> []")
      case True
      then have "step e a = commit (processCommand rnd (status a) (rendered_input a)) a"
        using KeyDown assms(2) by (simp add: handleKeyDown_def)
      then show ?thesis
        using pc [of rnd "rendered_input a"] by (simp only:) (rule w)
    next
      case False
      then have "step e a = a"
        using KeyDown by (auto simp: handleKeyDown_def commit_Nil)
      then show ?thesis by simp
    qed
  next
    case (ClickDeploy rnd)
    show ?thesis
    proof (cases "state (status a) = idle")
      case True
      then have "step e a = commit (processCommand rnd (status a) ''deploy'') a"
        using ClickDeploy assms(2) by simp
      then show ?thesis
        using pc [of rnd "''deploy''"] by (simp only:) (rule w)
    next
      case False
      then have "step e a = a"
        using ClickDeploy assms(2) by simp
      then show ?thesis by simp
    qed
  next
    case (Submit cmd rnd)
    then have "step e a = commit (processCommand rnd (status a) cmd) a"
      using assms(2) by simp
    then show ?thesis
      using pc [of rnd cmd] by (simp only:) (rule w)
  next
    case Render
    then show ?thesis by simp
  next
    case (TimerFires i rnd)
    show ?thesis
    proof (cases "i < length (timers a)")
      case False
      then have "step e a = a"
        using TimerFires by simp
      then show ?thesis by simp
    next
      case True
      from assms(1) consider
          (none) "timers a = []"
        | (an) "timers a = [(1500, AfterAnalyze)]"
            "status a = \<lparr>state = analyzing,
               currentTask = ''Analyzing repository structure...'', progress = 10\<rparr>"
        | (bu) "timers a = [(2000, AfterBuild)]"
            "status a = \<lparr>state = building, currentTask = ''Running build scripts...'',
               progress = 40\<rparr>"
        | (de) "timers a = [(1500, AfterDeploy)]"
            "status a = \<lparr>state = deploying, currentTask = ''Uploading assets to edge...'',
               progress = 75\<rparr>"
        unfolding in_flight_inv_def by blast
      then show ?thesis
      proof cases
        case none
        with True show ?thesis by simp
      next
        case an
        with True have "i = 0" by simp
        with an TimerFires show ?thesis
          by (simp add: commit_simps addLog_def)
      next
        case bu
        with True have "i = 0" by simp
        with bu TimerFires show ?thesis
          by (simp add: commit_simps addLog_def)
      next
        case de
        with True have "i = 0" by simp
        with de TimerFires show ?thesis
          by (simp add: commit_simps addLog_def)
      qed
    qed
  qed
qed

lemma inv_step:
  assumes "in_flight_inv a" and "rendered_status a = status a"
  shows "in_flight_inv (step e a)"
proof -
  have keep: "in_flight_inv b" if "status b = status a" and "timers b = timers a" for b
    using assms(1) that by (simp add: in_flight_inv_def)
  from step_cases [OF assms, of e] show ?thesis
  proof (elim disjE conjE)
    assume "status (step e a) = status a" and "timers (step e a) = timers a"
    then show ?thesis by (rule keep)
  qed (simp_all add: in_flight_inv_def)
qed

lemma inv_render_step:
  assumes "in_flight_inv a" and "rendered_status a = status a"
  shows "in_flight_inv (step Render (step e a))
       \<and> rendered_status (step Render (step e a)) = status (step Render (step e a))"
  using inv_step [OF assms, of e] by (simp add: in_flight_inv_def)

lemma inv_fold:
  "in_flight_inv a \<Longrightarrow> rendered_status a = status a \<Longrightarrow>
   in_flight_inv (fold (\<lambda>e a. step Render (step e a)) es a)
   \<and> rendered_status (fold (\<lambda>e a. step Render (step e a)) es a) =
       status (fold (\<lambda>e a. step Render (step e a)) es a)"
proof (induction es arbitrary: a)
  case Nil
  then show ?case by simp
next
  case (Cons e es)
  from inv_render_step [OF Cons.prems, of e]
  have "in_flight_inv (step Render (step e a))"
    and "rendered_status (step Render (step e a)) = status (step Render (step e a))"
    by blast+
  then show ?case
    using Cons.IH [of "step Render (step e a)"] by (simp del: step.simps)
qed

lemma inv_rendered_exec:
  "in_flight_inv (rendered_exec es)
   \<and> rendered_status (rendered_exec es) = status (rendered_exec es)"
  unfolding rendered_exec_def
  by (rule inv_fold) (simp_all add: in_flight_inv_def App_init_def)

lemma progress_step:
  assumes "in_flight_inv a" and "rendered_status a = status a"
  shows "(progress (status (step e a)) = progress (status a) \<and> timers (step e a) = timers a)
    \<or> (timers a = [] \<and> timers (step e a) \<noteq> [] \<and> progress (status (step e a)) = 10)
    \<or> (timers a \<noteq> [] \<and> timers (step e a) \<noteq> [] \<and> progress (status a) = 10 \<and>
        progress (status (step e a)) = 40)
    \<or> (timers a \<noteq> [] \<and> timers (step e a) \<noteq> [] \<and> progress (status a) = 40 \<and>
        progress (status (step e a)) = 75)
    \<or> (timers a \<noteq> [] \<and> timers (step e a) = [] \<and> progress (status a) = 75 \<and>
        progress (status (step e a)) = 100)"
  using step_cases [OF assms, of e]
  by (elim disjE conjE) (simp_all del: step.simps)

lemma progress_in_flight:
  assumes "in_flight_inv a" and "timers a \<noteq> []"
  shows "progress (status a) \<in> {10, 40, 75}"
  using assms unfolding in_flight_inv_def
  by (elim disjE conjE) simp_all

section \<open>The transitions of one run\<close>

lemma run_start:
  assumes "state (rendered_status a) = idle"
    and "includes_str (toLowerCase (trim cmd)) ''deploy''"
  shows "progress (status (step (Submit cmd rnd) a)) = 10
       \<and> timers (step (Submit cmd rnd) a) = timers a @ [(1500, AfterAnalyze)]"
  using processCommand_deploy_status_timers [OF assms, of rnd a] by simp

lemma run_resume:
  assumes "i < length (timers a)"
  shows "(snd (timers a ! i) = AfterAnalyze \<longrightarrow>
            progress (status (step (TimerFires i rnd) a)) = 40
            \<and> timers (step (TimerFires i rnd) a) =
                take i (timers a) @ drop (Suc i) (timers a) @ [(2000, AfterBuild)])
       \<and> (snd (timers a ! i) = AfterBuild \<longrightarrow>
            progress (status (step (TimerFires i rnd) a)) = 75
            \<and> timers (step (TimerFires i rnd) a) =
                take i (timers a) @ drop (Suc i) (timers a) @ [(1500, AfterDeploy)])
       \<and> (snd (timers a ! i) = AfterDeploy \<longrightarrow>
            progress (status (step (TimerFires i rnd) a)) = 100
            \<and> timers (step (TimerFires i rnd) a) =
                take i (timers a) @ drop (Suc i) (timers a))"
  using assms by (simp add: commit_simps addLog_def)

section \<open>Log Stream\<close>

text \<open>
  Claim C9, as the code has it. Every call of \<open>addLog\<close> yields an append of one new
  entry: the log afterwards is the old log, unchanged and in its order, followed by
  the entry, which carries the given message and level and the time of the call; the
  status and the pending timers are untouched. The id is characters 2 to 10 of the
  base-36 text of one random number; it is not compared with the ids already present.
\<close>
theorem addLog_appends:
  "addLog env msg lvl = AppendLog (newEntry env msg lvl)
   \<and> logs (apply_update (addLog env msg lvl) a) = logs a @ [newEntry env msg lvl]
   \<and> message (newEntry env msg lvl) = msg
   \<and> level (newEntry env msg lvl) = lvl
   \<and> timestamp (newEntry env msg lvl) = timeString env
   \<and> id' (newEntry env msg lvl) = take 9 (drop 2 (random36 env))
   \<and> status (apply_update (addLog env msg lvl) a) = status a
   \<and> timers (apply_update (addLog env msg lvl) a) = timers a"
  by (simp add: addLog_def newEntry_def substr_def)

text \<open>
  Claim C9 as stated asks for an id distinct from every id already in the log. Two
  random numbers whose base-36 texts agree on their first nine digits give two
  entries with the same id.
\<close>
theorem addLog_id_counterexample:
  "map id' (logs (commit
      [addLog \<lparr>random36 = ''0.4fzyo82mvyr'', timeString = ''12:00:00''\<rparr> ''first'' info,
       addLog \<lparr>random36 = ''0.4fzyo82mvzz'', timeString = ''12:00:01''\<rparr> ''second'' info]
      App_init)) = [''4fzyo82mv'', ''4fzyo82mv'']"
  by code_simp

section \<open>Command Interpreter\<close>

text \<open>
  Claim C4. For every submitted text, the first update of \<open>processCommand\<close> is the
  append of the echo entry, message \<open>> \<close> followed by the raw text, level info, and
  the state after the submission is the state with the echo entry appended to the
  log, followed by the remaining updates: the echo comes before the busy check and
  every dispatch. Unless the submission clears the log, the log afterwards is the old
  log, the echo entry, and further entries none of which has the echo's message; no
  entry of a later segment of the simulation has it either. Enter with a non-empty
  input, and the button while enabled, are such submissions.
\<close>
theorem echo_first:
  "processCommand rnd cur cmd =
     addLog (rnd 0) (''> '' @ cmd) info # tl (processCommand rnd cur cmd)
   \<and> addLog (rnd 0) (''> '' @ cmd) info = AppendLog (newEntry (rnd 0) (''> '' @ cmd) info)
   \<and> message (newEntry (rnd 0) (''> '' @ cmd) info) = ''> '' @ cmd
   \<and> level (newEntry (rnd 0) (''> '' @ cmd) info) = info
   \<and> (\<forall>e. AppendLog e \<in> set (tl (processCommand rnd cur cmd)) \<longrightarrow> message e \<noteq> ''> '' @ cmd)
   \<and> (\<forall>k r e. AppendLog e \<in> set (runDeploymentSimulation k r) \<longrightarrow> message e \<noteq> ''> '' @ cmd)
   \<and> step (Submit cmd rnd) a =
       commit (tl (processCommand rnd (rendered_status a) cmd))
         (a\<lparr>logs := logs a @ [newEntry (rnd 0) (''> '' @ cmd) info]\<rparr>)
   \<and> (\<not> (state (rendered_status a) = idle \<and> toLowerCase (trim cmd) = ''clear'') \<longrightarrow>
       (\<exists>more. logs (step (Submit cmd rnd) a) =
                 logs a @ newEntry (rnd 0) (''> '' @ cmd) info # more
              \<and> (\<forall>e\<in>set more. message e \<noteq> ''> '' @ cmd)))
   \<and> (rendered_input a \<noteq> [] \<longrightarrow>
       step (KeyDown ''Enter'' rnd) a = step (Submit (rendered_input a) rnd) a)
   \<and> (state (rendered_status a) = idle \<longrightarrow>
       step (ClickDeploy rnd) a = step (Submit ''deploy'' rnd) a)"
proof -
  have kd: "rendered_input a \<noteq> [] \<longrightarrow>
       step (KeyDown ''Enter'' rnd) a = step (Submit (rendered_input a) rnd) a"
    by (simp add: handleKeyDown_def)
  have cl: "state (rendered_status a) = idle \<longrightarrow>
       step (ClickDeploy rnd) a = step (Submit ''deploy'' rnd) a"
    by simp
  have m: "message (newEntry (rnd 0) (''> '' @ cmd) info) = ''> '' @ cmd
     \<and> level (newEntry (rnd 0) (''> '' @ cmd) info) = info"
    by (simp add: newEntry_def)
  show ?thesis
    using processCommand_head [of rnd cur cmd] rest_not_echo [of _ rnd cur cmd]
      later_not_echo [of _ _ _ cmd] submit_echo_first [of cmd rnd a]
      submit_logs_not_clear [of a cmd rnd] kd cl m
    by (simp only: addLog_def) blast
qed

theorem echo_first_witness:
  "AppendLog (newEntry (sample_rnd 1) ''Initiating deployment sequence...'' info)
     \<in> set (tl (processCommand sample_rnd (rendered_status App_init) ''deploy''))
   \<and> message (newEntry (sample_rnd 1) ''Initiating deployment sequence...'' info) \<noteq> ''> deploy''
   \<and> \<not> (state (rendered_status App_init) = idle \<and> toLowerCase (trim ''deploy'') = ''clear'')
   \<and> hd (logs (step (Submit ''deploy'' sample_rnd) App_init)) =
       \<lparr>id' = ''4fzyo82mv'', timestamp = ''12:00:00'', message = ''> deploy'', level = info\<rparr>
   \<and> rendered_input (exec [Change ''deploy'', Render]) \<noteq> []
   \<and> step (KeyDown ''Enter'' sample_rnd) (exec [Change ''deploy'', Render]) =
       step (Submit ''deploy'' sample_rnd) (exec [Change ''deploy'', Render])
   \<and> state (rendered_status App_init) = idle
   \<and> step (ClickDeploy sample_rnd) App_init = step (Submit ''deploy'' sample_rnd) App_init"
proof -
  note t = echo_first [of sample_rnd "rendered_status App_init" "''deploy''" App_init]
  note u = echo_first [of sample_rnd "rendered_status App_init" "''deploy''"
      "exec [Change ''deploy'', Render]"]
  have m: "AppendLog (newEntry (sample_rnd 1) ''Initiating deployment sequence...'' info)
     \<in> set (tl (processCommand sample_rnd (rendered_status App_init) ''deploy''))"
    by code_simp
  have e: "newEntry (sample_rnd 0) (''> '' @ ''deploy'') info =
     \<lparr>id' = ''4fzyo82mv'', timestamp = ''12:00:00'', message = ''> deploy'', level = info\<rparr>"
    by code_simp
  have nc: "\<not> (state (rendered_status App_init) = idle \<and> toLowerCase (trim ''deploy'') = ''clear'')"
    by code_simp
  have l: "logs App_init = []" by code_simp
  have ri: "rendered_input (exec [Change ''deploy'', Render]) = ''deploy''" by code_simp
  have i: "state (rendered_status App_init) = idle" by code_simp
  from t m have n: "message (newEntry (sample_rnd 1) ''Initiating deployment sequence...'' info)
      \<noteq> ''> '' @ ''deploy''"
    by blast
  from t nc obtain more where "logs (step (Submit ''deploy'' sample_rnd) App_init) =
      logs App_init @ newEntry (sample_rnd 0) (''> '' @ ''deploy'') info # more"
    by blast
  with l e have h: "hd (logs (step (Submit ''deploy'' sample_rnd) App_init)) =
       \<lparr>id' = ''4fzyo82mv'', timestamp = ''12:00:00'', message = ''> deploy'', level = info\<rparr>"
    by simp
  from u ri have k: "step (KeyDown ''Enter'' sample_rnd) (exec [Change ''deploy'', Render]) =
       step (Submit ''deploy'' sample_rnd) (exec [Change ''deploy'', Render])"
    by (simp del: step.simps)
  from t i have c: "step (ClickDeploy sample_rnd) App_init =
      step (Submit ''deploy'' sample_rnd) App_init"
    by blast
  from m n nc h ri k i c show ?thesis by (simp del: step.simps)
qed

text \<open>
  Claim C3. A submission whose handler reads a state other than idle issues the echo
  entry, the reset of the input field and one warning entry ``Agent is busy. Please
  wait.'', whatever the text; the log grows by exactly these two entries, and the
  status and the pending timers are unchanged, so no simulation is started.
\<close>
theorem busy_submission:
  assumes "state (rendered_status a) \<noteq> idle"
  shows "processCommand rnd (rendered_status a) cmd =
           [addLog (rnd 0) (''> '' @ cmd) info, SetInput '''',
            addLog (rnd 1) ''Agent is busy. Please wait.'' warning]
       \<and> logs (step (Submit cmd rnd) a) =
           logs a @ [newEntry (rnd 0) (''> '' @ cmd) info,
                     newEntry (rnd 1) ''Agent is busy. Please wait.'' warning]
       \<and> status (step (Submit cmd rnd) a) = status a
       \<and> timers (step (Submit cmd rnd) a) = timers a"
  using assms by (simp add: processCommand_busy commit_Cons commit_Nil addLog_def)

theorem busy_submission_witness:
  "state (rendered_status (exec [Submit ''deploy'' sample_rnd, Render])) \<noteq> idle
   \<and> map message (logs (step (Submit ''clear'' sample_rnd)
         (exec [Submit ''deploy'' sample_rnd, Render]))) =
       [''> deploy'', ''Initiating deployment sequence...'', ''> clear'',
        ''Agent is busy. Please wait.'']
   \<and> state (status (step (Submit ''clear'' sample_rnd)
         (exec [Submit ''deploy'' sample_rnd, Render]))) = analyzing
   \<and> timers (step (Submit ''clear'' sample_rnd)
         (exec [Submit ''deploy'' sample_rnd, Render])) = [(1500, AfterAnalyze)]"
proof -
  have busy: "state (rendered_status (exec [Submit ''deploy'' sample_rnd, Render])) \<noteq> idle"
    by code_simp
  have before: "map message (logs (exec [Submit ''deploy'' sample_rnd, Render])) =
      [''> deploy'', ''Initiating deployment sequence...'']"
    by code_simp
  have st: "state (status (exec [Submit ''deploy'' sample_rnd, Render])) = analyzing"
    by code_simp
  have ti: "timers (exec [Submit ''deploy'' sample_rnd, Render]) = [(1500, AfterAnalyze)]"
    by code_simp
  show ?thesis
    using busy_submission [OF busy, of sample_rnd "''clear''"] busy before st ti
    by (simp del: step.simps add: newEntry_def)
qed

text \<open>
  Claim C5. When the handler reads idle, a text whose trimmed, lower-cased form is
  \<open>clear\<close> leaves the log empty, whatever it held: the reset comes after the echo
  entry of the same submission and removes it too. The status and the pending timers
  are unchanged.
\<close>
theorem clear_empties_log:
  assumes "state (rendered_status a) = idle" and "toLowerCase (trim cmd) = ''clear''"
  shows "processCommand rnd (rendered_status a) cmd =
           [addLog (rnd 0) (''> '' @ cmd) info, SetInput '''', ResetLogs]
       \<and> logs (step (Submit cmd rnd) a) = []
       \<and> length (logs (step (Submit cmd rnd) a)) = 0
       \<and> status (step (Submit cmd rnd) a) = status a
       \<and> timers (step (Submit cmd rnd) a) = timers a"
  using assms by (simp add: processCommand_clear commit_simps addLog_def)

theorem clear_empties_log_witness:
  "state (rendered_status (exec [Submit ''help'' sample_rnd, Render])) = idle
   \<and> toLowerCase (trim ''  CLEAR '') = ''clear''
   \<and> length (logs (exec [Submit ''help'' sample_rnd, Render])) = 2
   \<and> logs (step (Submit ''  CLEAR '' sample_rnd) (exec [Submit ''help'' sample_rnd, Render])) = []
   \<and> status (step (Submit ''  CLEAR '' sample_rnd) (exec [Submit ''help'' sample_rnd, Render])) =
       status App_init"
proof -
  have i: "state (rendered_status (exec [Submit ''help'' sample_rnd, Render])) = idle"
    by code_simp
  have c: "toLowerCase (trim ''  CLEAR '') = ''clear''" by code_simp
  have l: "length (logs (exec [Submit ''help'' sample_rnd, Render])) = 2" by code_simp
  have s: "status (exec [Submit ''help'' sample_rnd, Render]) = status App_init" by code_simp
  show ?thesis
    using clear_empties_log [OF i c, of sample_rnd] i c l s
    by (simp del: step.simps add: newEntry_def)
qed

text \<open>
  Claim C7. When the handler reads idle, a text whose trimmed, lower-cased form is
  neither \<open>help\<close> nor \<open>clear\<close> and does not contain \<open>deploy\<close> appends the echo entry and
  then exactly one entry of level error, ``Command not recognized: '' followed by the
  raw text as typed; the status and the pending timers are unchanged.
\<close>
theorem unrecognized_command:
  assumes "state (rendered_status a) = idle"
    and "toLowerCase (trim cmd) \<noteq> ''help''"
    and "toLowerCase (trim cmd) \<noteq> ''clear''"
    and "\<not> includes_str (toLowerCase (trim cmd)) ''deploy''"
  shows "processCommand rnd (rendered_status a) cmd =
           [addLog (rnd 0) (''> '' @ cmd) info, SetInput '''',
            addLog (rnd 1) (''Command not recognized: '' @ cmd) error]
       \<and> logs (step (Submit cmd rnd) a) =
           logs a @ [newEntry (rnd 0) (''> '' @ cmd) info,
                     newEntry (rnd 1) (''Command not recognized: '' @ cmd) error]
       \<and> status (step (Submit cmd rnd) a) = status a
       \<and> timers (step (Submit cmd rnd) a) = timers a"
  using assms by (simp add: processCommand_unrecognized commit_simps addLog_def)

theorem unrecognized_command_witness:
  "state (rendered_status App_init) = idle
   \<and> toLowerCase (trim '' Rollback NOW'') \<noteq> ''help''
   \<and> toLowerCase (trim '' Rollback NOW'') \<noteq> ''clear''
   \<and> \<not> includes_str (toLowerCase (trim '' Rollback NOW'')) ''deploy''
   \<and> map message (logs (step (Submit '' Rollback NOW'' sample_rnd) App_init)) =
       [''>  Rollback NOW'', ''Command not recognized:  Rollback NOW'']
   \<and> map level (logs (step (Submit '' Rollback NOW'' sample_rnd) App_init)) = [info, error]
   \<and> status (step (Submit '' Rollback NOW'' sample_rnd) App_init) = status App_init"
proof -
  have i: "state (rendered_status App_init) = idle" by code_simp
  have h: "toLowerCase (trim '' Rollback NOW'') \<noteq> ''help''" by code_simp
  have c: "toLowerCase (trim '' Rollback NOW'') \<noteq> ''clear''" by code_simp
  have d: "\<not> includes_str (toLowerCase (trim '' Rollback NOW'')) ''deploy''" by code_simp
  have l: "logs App_init = []" by code_simp
  show ?thesis
    using unrecognized_command [OF i h c d, of sample_rnd] i h c d l
    by (simp del: step.simps add: newEntry_def)
qed

text \<open>
  Claim C10. The texts \<open>status\<close> and \<open>analyze\<close>, which the help message lists, have
  no branch of their own: when the handler reads idle each appends the echo entry and
  the error entry ``Command not recognized: '' with the text, and changes neither
  status nor timers.
\<close>
theorem status_analyze_unrecognized:
  assumes "state (rendered_status a) = idle" and "cmd = ''status'' \<or> cmd = ''analyze''"
  shows "processCommand rnd (rendered_status a) cmd =
           [addLog (rnd 0) (''> '' @ cmd) info, SetInput '''',
            addLog (rnd 1) (''Command not recognized: '' @ cmd) error]
       \<and> logs (step (Submit cmd rnd) a) =
           logs a @ [newEntry (rnd 0) (''> '' @ cmd) info,
                     newEntry (rnd 1) (''Command not recognized: '' @ cmd) error]
       \<and> status (step (Submit cmd rnd) a) = status a
       \<and> timers (step (Submit cmd rnd) a) = timers a"
proof -
  from assms(2) have "toLowerCase (trim cmd) \<noteq> ''help'' \<and> toLowerCase (trim cmd) \<noteq> ''clear''
      \<and> \<not> includes_str (toLowerCase (trim cmd)) ''deploy''"
    using lower_trim_status lower_trim_analyze by auto
  with assms(1) show ?thesis
    by (simp add: processCommand_unrecognized commit_simps addLog_def)
qed

theorem status_analyze_unrecognized_witness:
  "state (rendered_status App_init) = idle
   \<and> map message (logs (step (Submit ''status'' sample_rnd) App_init)) =
       [''> status'', ''Command not recognized: status'']
   \<and> map message (logs (step (Submit ''analyze'' sample_rnd) App_init)) =
       [''> analyze'', ''Command not recognized: analyze'']
   \<and> status (step (Submit ''status'' sample_rnd) App_init) = status App_init
   \<and> status (step (Submit ''analyze'' sample_rnd) App_init) = status App_init"
proof -
  have i: "state (rendered_status App_init) = idle" by code_simp
  have l: "logs App_init = []" by code_simp
  show ?thesis
    using status_analyze_unrecognized [OF i, of "''status''" sample_rnd]
      status_analyze_unrecognized [OF i, of "''analyze''" sample_rnd] i l
    by (simp del: step.simps add: newEntry_def)
qed

text \<open>
  Claim C6, as the code has it. The key handler submits nothing when the input field
  is empty or the key is not Enter: no update is issued and the state stays as it is.
  With Enter, every non-empty input is passed to \<open>processCommand\<close> as typed, also
  one made of white space only.
\<close>
theorem handleKeyDown_gate:
  "(inp = [] \<or> key \<noteq> ''Enter'' \<longrightarrow>
      handleKeyDown rnd cur inp key = []
      \<and> step (KeyDown key rnd) (a\<lparr>rendered_input := inp\<rparr>) = a\<lparr>rendered_input := inp\<rparr>)
   \<and> (inp \<noteq> [] \<longrightarrow> handleKeyDown rnd cur inp ''Enter'' = processCommand rnd cur inp)"
  by (auto simp: handleKeyDown_def commit_Nil)

theorem handleKeyDown_gate_witness:
  "handleKeyDown sample_rnd (status App_init) [] ''Enter'' = []
   \<and> step (KeyDown ''Enter'' sample_rnd) (App_init\<lparr>rendered_input := []\<rparr>) = App_init
   \<and> handleKeyDown sample_rnd (status App_init) ''a'' ''x'' = []
   \<and> handleKeyDown sample_rnd (status App_init) ''   '' ''Enter'' =
       processCommand sample_rnd (status App_init) ''   ''"
proof -
  have i: "App_init\<lparr>rendered_input := []\<rparr> = App_init" by (simp add: App_init_def)
  have k: "''x'' \<noteq> ''Enter''" by simp
  have n: "''   '' \<noteq> []" by simp
  show ?thesis
    using handleKeyDown_gate [of "[]" "''Enter''" sample_rnd "status App_init" App_init]
      handleKeyDown_gate [of "''a''" "''x''" sample_rnd "status App_init" App_init]
      handleKeyDown_gate [of "''   ''" "''Enter''" sample_rnd "status App_init" App_init] i k n
    by (simp del: step.simps)
qed

text \<open>
  Claim C6 as stated says that input of white space only is not submitted. Three
  blanks typed and rendered, followed by Enter, append the echo entry and the error
  entry.
\<close>
theorem whitespace_input_counterexample:
  "map message (logs (exec [Change ''   '', Render, KeyDown ''Enter'' sample_rnd])) =
     [''>    '', ''Command not recognized:    '']
   \<and> map level (logs (exec [Change ''   '', Render, KeyDown ''Enter'' sample_rnd])) =
       [info, error]"
  by code_simp

section \<open>Pipeline Runner\<close>

text \<open>
  Claim C1, as the code has it. In any state, when the handler reads idle, submitting
  a text whose trimmed, lower-cased form contains \<open>deploy\<close> sets the status to
  analyzing (10) and suspends for 1500; the run's three timer events then set building
  (40), deploying (75) and idle with task ``Deployment Complete'' (100), and the
  timers pending before are as they were. The log receives the echo and then seven
  entries, in the order and with the levels of the source: one at the start and two
  in each resumed segment.
\<close>
theorem deploy_run:
  fixes cmd :: string and r1 r2 r3 r4 :: "nat \<Rightarrow> stamp"
    and a0 a1 a2 a3 a4 :: app and n :: nat
  assumes "includes_str (toLowerCase (trim cmd)) ''deploy''"
    and "state (rendered_status a0) = idle"
  defines "n \<equiv> length (timers a0)"
    and "a1 \<equiv> step (Submit cmd r1) a0"
    and "a2 \<equiv> step (TimerFires n r2) a1"
    and "a3 \<equiv> step (TimerFires n r3) a2"
    and "a4 \<equiv> step (TimerFires n r4) a3"
  shows "status a1 = \<lparr>state = analyzing, currentTask = ''Analyzing repository structure...'',
                        progress = 10\<rparr>
       \<and> logs a1 = logs a0 @ [newEntry (r1 0) (''> '' @ cmd) info,
                               newEntry (r1 1) ''Initiating deployment sequence...'' info]
       \<and> timers a1 = timers a0 @ [(1500, AfterAnalyze)]
       \<and> status a2 = \<lparr>state = building, currentTask = ''Running build scripts...'',
                        progress = 40\<rparr>
       \<and> logs a2 = logs a1 @
           [newEntry (r2 0) ''Repository analysis complete. Detected React/Vite project.'' success,
            newEntry (r2 1) ''Executing: npm run build'' info]
       \<and> timers a2 = timers a0 @ [(2000, AfterBuild)]
       \<and> status a3 = \<lparr>state = deploying, currentTask = ''Uploading assets to edge...'',
                        progress = 75\<rparr>
       \<and> logs a3 = logs a2 @
           [newEntry (r3 0) ''Build successful. Output directory: /dist'' success,
            newEntry (r3 1) ''Optimizing assets for edge distribution...'' info]
       \<and> timers a3 = timers a0 @ [(1500, AfterDeploy)]
       \<and> status a4 = \<lparr>state = idle, currentTask = ''Deployment Complete'', progress = 100\<rparr>
       \<and> logs a4 = logs a3 @
           [newEntry (r4 0) ''Verifying integrity...'' info,
            newEntry (r4 1)
              ''Deployment successful! URL: https://autodeploy-agent.vercel.app'' success]
       \<and> timers a4 = timers a0
       \<and> length (logs a4) = length (logs a0) + 1 + 7"
proof -
  have s1: "status a1 = \<lparr>state = analyzing, currentTask = ''Analyzing repository structure...'',
                        progress = 10\<rparr>"
    and l1: "logs a1 = logs a0 @ [newEntry (r1 0) (''> '' @ cmd) info,
                               newEntry (r1 1) ''Initiating deployment sequence...'' info]"
    and t1: "timers a1 = timers a0 @ [(1500, AfterAnalyze)]"
    unfolding a1_def using assms(1,2)
    by (simp_all add: processCommand_deploy commit_simps addLog_def)
  have i1: "n < length (timers a1)" and k1: "snd (timers a1 ! n) = AfterAnalyze"
    by (simp_all add: t1 n_def)
  have d1: "take n (timers a1) @ drop (Suc n) (timers a1) = timers a0"
    by (simp add: t1 n_def)
  have s2: "status a2 = \<lparr>state = building, currentTask = ''Running build scripts...'',
                        progress = 40\<rparr>"
    and l2: "logs a2 = logs a1 @
           [newEntry (r2 0) ''Repository analysis complete. Detected React/Vite project.'' success,
            newEntry (r2 1) ''Executing: npm run build'' info]"
    and t2: "timers a2 = timers a0 @ [(2000, AfterBuild)]"
    unfolding a2_def timer_step [OF i1 k1] d1
    by (simp_all add: commit_simps addLog_def)
  have i2: "n < length (timers a2)" and k2: "snd (timers a2 ! n) = AfterBuild"
    by (simp_all add: t2 n_def)
  have d2: "take n (timers a2) @ drop (Suc n) (timers a2) = timers a0"
    by (simp add: t2 n_def)
  have s3: "status a3 = \<lparr>state = deploying, currentTask = ''Uploading assets to edge...'',
                        progress = 75\<rparr>"
    and l3: "logs a3 = logs a2 @
           [newEntry (r3 0) ''Build successful. Output directory: /dist'' success,
            newEntry (r3 1) ''Optimizing assets for edge distribution...'' info]"
    and t3: "timers a3 = timers a0 @ [(1500, AfterDeploy)]"
    unfolding a3_def timer_step [OF i2 k2] d2
    by (simp_all add: commit_simps addLog_def)
  have i3: "n < length (timers a3)" and k3: "snd (timers a3 ! n) = AfterDeploy"
    by (simp_all add: t3 n_def)
  have d3: "take n (timers a3) @ drop (Suc n) (timers a3) = timers a0"
    by (simp add: t3 n_def)
  have s4: "status a4 = \<lparr>state = idle, currentTask = ''Deployment Complete'', progress = 100\<rparr>"
    and l4: "logs a4 = logs a3 @
           [newEntry (r4 0) ''Verifying integrity...'' info,
            newEntry (r4 1)
              ''Deployment successful! URL: https://autodeploy-agent.vercel.app'' success]"
    and t4: "timers a4 = timers a0"
    unfolding a4_def timer_step [OF i3 k3] d3
    by (simp_all add: commit_simps addLog_def)
  have c: "length (logs a4) = length (logs a0) + 1 + 7"
    by (simp add: l4 l3 l2 l1)
  show ?thesis
    using s1 l1 t1 s2 l2 t2 s3 l3 t3 s4 l4 t4 c by blast
qed

theorem deploy_run_witness:
  "includes_str (toLowerCase (trim '' Please DEPLOY now '')) ''deploy''
   \<and> state (rendered_status App_init) = idle
   \<and> status (step (TimerFires 0 sample_rnd) (step (TimerFires 0 sample_rnd)
        (step (TimerFires 0 sample_rnd)
          (step (Submit '' Please DEPLOY now '' sample_rnd) App_init)))) =
       \<lparr>state = idle, currentTask = ''Deployment Complete'', progress = 100\<rparr>
   \<and> length (logs (step (TimerFires 0 sample_rnd) (step (TimerFires 0 sample_rnd)
        (step (TimerFires 0 sample_rnd)
          (step (Submit '' Please DEPLOY now '' sample_rnd) App_init))))) = 8"
proof -
  have d: "includes_str (toLowerCase (trim '' Please DEPLOY now '')) ''deploy''" by code_simp
  have i: "state (rendered_status App_init) = idle" by code_simp
  have l: "logs App_init = []" by code_simp
  have t: "length (timers App_init) = 0" by code_simp
  show ?thesis
    using deploy_run [OF d i, of sample_rnd sample_rnd sample_rnd sample_rnd] d i l t
    by (simp del: step.simps)
qed

text \<open>
  Claim C1 as stated has nine log messages appended by the run. A complete run from
  the initial state appends the echo and seven messages: eight entries, not ten.
\<close>
theorem nine_messages_counterexample:
  "map message (logs (exec [Submit ''deploy'' sample_rnd, TimerFires 0 sample_rnd,
                            TimerFires 0 sample_rnd, TimerFires 0 sample_rnd])) =
     [''> deploy'',
      ''Initiating deployment sequence...'',
      ''Repository analysis complete. Detected React/Vite project.'',
      ''Executing: npm run build'',
      ''Build successful. Output directory: /dist'',
      ''Optimizing assets for edge distribution...'',
      ''Verifying integrity...'',
      ''Deployment successful! URL: https://autodeploy-agent.vercel.app'']
   \<and> length (logs (exec [Submit ''deploy'' sample_rnd, TimerFires 0 sample_rnd,
                          TimerFires 0 sample_rnd, TimerFires 0 sample_rnd])) \<noteq> 1 + 9"
  by code_simp

text \<open>
  Claim C8. In the executions that render after every event, while a simulation is
  in flight the progress is 10, 40 or 75, and no event lowers it: an event either
  leaves it as it is or moves it from 10 to 40, from 40 to 75 or from 75 to 100; the
  event that starts a run sets the progress to 10, and the event that ends it sets
  the progress to 100. In any state at all, the transitions of one run are these:
  its start sets 10 and leaves its timer for the code after the first wait, and the
  timer of each later segment sets 40, 75 and 100 in turn, each leaving the timer of
  the next segment, the last leaving none.
\<close>
theorem progress_monotone:
  "(timers (rendered_exec es) \<noteq> [] \<longrightarrow>
      progress (status (rendered_exec es)) \<le> progress (status (step e (rendered_exec es)))
      \<and> progress (status (rendered_exec es)) \<in> {10, 40, 75})
   \<and> (timers (rendered_exec es) = [] \<and> timers (step e (rendered_exec es)) \<noteq> [] \<longrightarrow>
      progress (status (step e (rendered_exec es))) = 10)
   \<and> (timers (rendered_exec es) \<noteq> [] \<and> timers (step e (rendered_exec es)) = [] \<longrightarrow>
      progress (status (step e (rendered_exec es))) = 100)
   \<and> (timers (rendered_exec es) \<noteq> [] \<and>
       progress (status (step e (rendered_exec es))) \<noteq> progress (status (rendered_exec es)) \<longrightarrow>
      (progress (status (rendered_exec es)), progress (status (step e (rendered_exec es))))
        \<in> {(10, 40), (40, 75), (75, 100)})
   \<and> (state (rendered_status a) = idle \<and> includes_str (toLowerCase (trim cmd)) ''deploy'' \<longrightarrow>
      progress (status (step (Submit cmd rnd) a)) = 10
      \<and> timers (step (Submit cmd rnd) a) = timers a @ [(1500, AfterAnalyze)])
   \<and> (i < length (timers a) \<and> snd (timers a ! i) = AfterAnalyze \<longrightarrow>
      progress (status (step (TimerFires i rnd) a)) = 40
      \<and> timers (step (TimerFires i rnd) a) =
          take i (timers a) @ drop (Suc i) (timers a) @ [(2000, AfterBuild)])
   \<and> (i < length (timers a) \<and> snd (timers a ! i) = AfterBuild \<longrightarrow>
      progress (status (step (TimerFires i rnd) a)) = 75
      \<and> timers (step (TimerFires i rnd) a) =
          take i (timers a) @ drop (Suc i) (timers a) @ [(1500, AfterDeploy)])
   \<and> (i < length (timers a) \<and> snd (timers a ! i) = AfterDeploy \<longrightarrow>
      progress (status (step (TimerFires i rnd) a)) = 100
      \<and> timers (step (TimerFires i rnd) a) = take i (timers a) @ drop (Suc i) (timers a))"
proof -
  define p where "p = progress (status (rendered_exec es))"
  define p' where "p' = progress (status (step e (rendered_exec es)))"
  define t where "t = timers (rendered_exec es)"
  define t' where "t' = timers (step e (rendered_exec es))"
  have inv: "in_flight_inv (rendered_exec es)"
    and fresh: "rendered_status (rendered_exec es) = status (rendered_exec es)"
    using inv_rendered_exec [of es] by blast+
  have c: "(p' = p \<and> t' = t) \<or> (t = [] \<and> t' \<noteq> [] \<and> p' = 10)
     \<or> (t \<noteq> [] \<and> t' \<noteq> [] \<and> p = 10 \<and> p' = 40)
     \<or> (t \<noteq> [] \<and> t' \<noteq> [] \<and> p = 40 \<and> p' = 75)
     \<or> (t \<noteq> [] \<and> t' = [] \<and> p = 75 \<and> p' = 100)"
    unfolding p_def p'_def t_def t'_def by (rule progress_step [OF inv fresh])
  have r: "t \<noteq> [] \<longrightarrow> p \<in> {10, 40, 75}"
    unfolding p_def t_def using progress_in_flight [OF inv] by blast
  have "(t \<noteq> [] \<longrightarrow> p \<le> p' \<and> p \<in> {10, 40, 75})
   \<and> (t = [] \<and> t' \<noteq> [] \<longrightarrow> p' = 10)
   \<and> (t \<noteq> [] \<and> t' = [] \<longrightarrow> p' = 100)
   \<and> (t \<noteq> [] \<and> p' \<noteq> p \<longrightarrow> (p, p') \<in> {(10, 40), (40, 75), (75, 100)})"
    using c r by auto
  then have one: "(timers (rendered_exec es) \<noteq> [] \<longrightarrow>
      progress (status (rendered_exec es)) \<le> progress (status (step e (rendered_exec es)))
      \<and> progress (status (rendered_exec es)) \<in> {10, 40, 75})
   \<and> (timers (rendered_exec es) = [] \<and> timers (step e (rendered_exec es)) \<noteq> [] \<longrightarrow>
      progress (status (step e (rendered_exec es))) = 10)
   \<and> (timers (rendered_exec es) \<noteq> [] \<and> timers (step e (rendered_exec es)) = [] \<longrightarrow>
      progress (status (step e (rendered_exec es))) = 100)
   \<and> (timers (rendered_exec es) \<noteq> [] \<and>
       progress (status (step e (rendered_exec es))) \<noteq> progress (status (rendered_exec es)) \<longrightarrow>
      (progress (status (rendered_exec es)), progress (status (step e (rendered_exec es))))
        \<in> {(10, 40), (40, 75), (75, 100)})"
    unfolding p_def p'_def t_def t'_def .
  have two: "state (rendered_status a) = idle \<and> includes_str (toLowerCase (trim cmd)) ''deploy'' \<longrightarrow>
      progress (status (step (Submit cmd rnd) a)) = 10
      \<and> timers (step (Submit cmd rnd) a) = timers a @ [(1500, AfterAnalyze)]"
    using run_start [of a cmd rnd] by blast
  have three: "i < length (timers a) \<longrightarrow>
      (snd (timers a ! i) = AfterAnalyze \<longrightarrow>
            progress (status (step (TimerFires i rnd) a)) = 40
            \<and> timers (step (TimerFires i rnd) a) =
                take i (timers a) @ drop (Suc i) (timers a) @ [(2000, AfterBuild)])
       \<and> (snd (timers a ! i) = AfterBuild \<longrightarrow>
            progress (status (step (TimerFires i rnd) a)) = 75
            \<and> timers (step (TimerFires i rnd) a) =
                take i (timers a) @ drop (Suc i) (timers a) @ [(1500, AfterDeploy)])
       \<and> (snd (timers a ! i) = AfterDeploy \<longrightarrow>
            progress (status (step (TimerFires i rnd) a)) = 100
            \<and> timers (step (TimerFires i rnd) a) =
                take i (timers a) @ drop (Suc i) (timers a))"
    using run_resume [of i a rnd] by blast
  from one two three show ?thesis by blast
qed

theorem progress_monotone_witness:
  "timers (rendered_exec [Submit ''deploy'' sample_rnd]) \<noteq> []
   \<and> progress (status (rendered_exec [Submit ''deploy'' sample_rnd]))
       \<le> progress (status (step (TimerFires 0 sample_rnd)
            (rendered_exec [Submit ''deploy'' sample_rnd])))
   \<and> timers (rendered_exec []) = []
   \<and> timers (step (Submit ''deploy'' sample_rnd) (rendered_exec [])) \<noteq> []
   \<and> progress (status (step (Submit ''deploy'' sample_rnd) (rendered_exec []))) = 10
   \<and> timers (rendered_exec [Submit ''deploy'' sample_rnd, TimerFires 0 sample_rnd,
                    TimerFires 0 sample_rnd]) \<noteq> []
   \<and> timers (step (TimerFires 0 sample_rnd)
         (rendered_exec [Submit ''deploy'' sample_rnd, TimerFires 0 sample_rnd,
                TimerFires 0 sample_rnd])) = []
   \<and> progress (status (step (TimerFires 0 sample_rnd)
         (rendered_exec [Submit ''deploy'' sample_rnd, TimerFires 0 sample_rnd,
                TimerFires 0 sample_rnd]))) = 100
   \<and> state (rendered_status App_init) = idle
   \<and> includes_str (toLowerCase (trim ''deploy'')) ''deploy''
   \<and> progress (status (step (Submit ''deploy'' sample_rnd) App_init)) = 10
   \<and> 0 < length (timers (exec [Submit ''deploy'' sample_rnd]))
   \<and> snd (timers (exec [Submit ''deploy'' sample_rnd]) ! 0) = AfterAnalyze
   \<and> progress (status (step (TimerFires 0 sample_rnd) (exec [Submit ''deploy'' sample_rnd]))) = 40
   \<and> 0 < length (timers (exec [Submit ''deploy'' sample_rnd, TimerFires 0 sample_rnd]))
   \<and> snd (timers (exec [Submit ''deploy'' sample_rnd, TimerFires 0 sample_rnd]) ! 0) = AfterBuild
   \<and> progress (status (step (TimerFires 0 sample_rnd)
         (exec [Submit ''deploy'' sample_rnd, TimerFires 0 sample_rnd]))) = 75
   \<and> 0 < length (timers (exec [Submit ''deploy'' sample_rnd, TimerFires 0 sample_rnd,
         TimerFires 0 sample_rnd]))
   \<and> snd (timers (exec [Submit ''deploy'' sample_rnd, TimerFires 0 sample_rnd,
         TimerFires 0 sample_rnd]) ! 0) = AfterDeploy
   \<and> progress (status (step (TimerFires 0 sample_rnd)
         (exec [Submit ''deploy'' sample_rnd, TimerFires 0 sample_rnd,
                TimerFires 0 sample_rnd]))) = 100"
proof -
  have a: "timers (rendered_exec [Submit ''deploy'' sample_rnd]) \<noteq> []" by code_simp
  have d: "timers (rendered_exec []) = []" by code_simp
  have e: "timers (step (Submit ''deploy'' sample_rnd) (rendered_exec [])) \<noteq> []" by code_simp
  have f: "timers (rendered_exec [Submit ''deploy'' sample_rnd, TimerFires 0 sample_rnd,
                    TimerFires 0 sample_rnd]) \<noteq> []" by code_simp
  have g: "timers (step (TimerFires 0 sample_rnd)
         (rendered_exec [Submit ''deploy'' sample_rnd, TimerFires 0 sample_rnd,
                TimerFires 0 sample_rnd])) = []" by code_simp
  have i: "state (rendered_status App_init) = idle" by code_simp
  have dp: "includes_str (toLowerCase (trim ''deploy'')) ''deploy''" by code_simp
  have l1: "0 < length (timers (exec [Submit ''deploy'' sample_rnd]))" by code_simp
  have k1: "snd (timers (exec [Submit ''deploy'' sample_rnd]) ! 0) = AfterAnalyze" by code_simp
  have l2: "0 < length (timers (exec [Submit ''deploy'' sample_rnd, TimerFires 0 sample_rnd]))"
    by code_simp
  have k2: "snd (timers (exec [Submit ''deploy'' sample_rnd, TimerFires 0 sample_rnd]) ! 0) =
      AfterBuild" by code_simp
  have l3: "0 < length (timers (exec [Submit ''deploy'' sample_rnd, TimerFires 0 sample_rnd,
         TimerFires 0 sample_rnd]))" by code_simp
  have k3: "snd (timers (exec [Submit ''deploy'' sample_rnd, TimerFires 0 sample_rnd,
         TimerFires 0 sample_rnd]) ! 0) = AfterDeploy" by code_simp
  have p1: "progress (status (rendered_exec [Submit ''deploy'' sample_rnd]))
      \<le> progress (status (step (TimerFires 0 sample_rnd)
            (rendered_exec [Submit ''deploy'' sample_rnd])))"
    using progress_monotone [where es = "[Submit ''deploy'' sample_rnd]"
        and e = "TimerFires 0 sample_rnd"] a
    by blast
  have p2: "progress (status (step (Submit ''deploy'' sample_rnd) (rendered_exec []))) = 10"
    using progress_monotone [where es = "[]" and e = "Submit ''deploy'' sample_rnd"] d e
    by blast
  have p3: "progress (status (step (TimerFires 0 sample_rnd)
         (rendered_exec [Submit ''deploy'' sample_rnd, TimerFires 0 sample_rnd,
                TimerFires 0 sample_rnd]))) = 100"
    using progress_monotone [where es = "[Submit ''deploy'' sample_rnd, TimerFires 0 sample_rnd,
                TimerFires 0 sample_rnd]" and e = "TimerFires 0 sample_rnd"] f g
    by blast
  have q0: "progress (status (step (Submit ''deploy'' sample_rnd) App_init)) = 10"
    using progress_monotone [where a = App_init and cmd = "''deploy''" and rnd = sample_rnd] i dp
    by blast
  have q1: "progress (status (step (TimerFires 0 sample_rnd)
      (exec [Submit ''deploy'' sample_rnd]))) = 40"
    using progress_monotone [where a = "exec [Submit ''deploy'' sample_rnd]" and i = 0
        and rnd = sample_rnd] l1 k1
    by blast
  have q2: "progress (status (step (TimerFires 0 sample_rnd)
         (exec [Submit ''deploy'' sample_rnd, TimerFires 0 sample_rnd]))) = 75"
    using progress_monotone [where a = "exec [Submit ''deploy'' sample_rnd, TimerFires 0 sample_rnd]"
        and i = 0 and rnd = sample_rnd] l2 k2
    by blast
  have q3: "progress (status (step (TimerFires 0 sample_rnd)
         (exec [Submit ''deploy'' sample_rnd, TimerFires 0 sample_rnd,
                TimerFires 0 sample_rnd]))) = 100"
    using progress_monotone [where a = "exec [Submit ''deploy'' sample_rnd, TimerFires 0 sample_rnd,
                TimerFires 0 sample_rnd]" and i = 0 and rnd = sample_rnd] l3 k3
    by blast
  show ?thesis
    using a d e f g i dp l1 k1 l2 k2 l3 k3 p1 p2 p3 q0 q1 q2 q3 by blast
qed


end
